theory Spec2Isabelle
  imports Complex_Main "HOL-Library.Multiset"
begin

section \<open>Momentum trading script: data model\<close>

text \<open>
  The script works on pandas Series and DataFrames of floating-point numbers over one
  shared date index. Dates are modelled by their position \<open>0, 1, \<dots>\<close> in that index.
  A cell is \<open>Some v\<close> for a finite number \<open>v\<close> and \<open>None\<close> for a cell holding no finite
  number (pandas' NaN; a division by a zero price also ends up missing after the
  rolling window, which treats infinities as NaN). Numbers are idealised as reals:
  rounding of floating-point arithmetic is not modelled.

  A Series is the list of its cells in date order. A DataFrame is its date index (the
  number of dates) together with one Series per ticker, in column order.
\<close>

type_synonym cell = "real option"
type_synonym series = "cell list"

record frame =
  ndates :: nat
  cols :: "series list"

definition wf_frame :: "frame \<Rightarrow> bool" where
  "wf_frame fr = list_all (\<lambda>c. length c = ndates fr) (cols fr)"

text \<open>Reading a Series at a date outside its index gives a missing value after alignment.\<close>

definition cell_at :: "series \<Rightarrow> nat \<Rightarrow> cell" where
  "cell_at s t = (if t < length s then s ! t else None)"

text \<open>Applying a column-wise operation to every column of a DataFrame.\<close>

definition fmap :: "(series \<Rightarrow> series) \<Rightarrow> frame \<Rightarrow> frame" where
  "fmap f fr = \<lparr>ndates = ndates fr, cols = map f (cols fr)\<rparr>"

text \<open>The row of a DataFrame at date \<open>t\<close> (what \<open>axis = 1\<close> operations see).\<close>

definition row :: "frame \<Rightarrow> nat \<Rightarrow> cell list" where
  "row fr t = map (\<lambda>c. cell_at c t) (cols fr)"

text \<open>The non-missing values of a row or Series, in order (\<open>skipna\<close>).\<close>

definition somes :: "cell list \<Rightarrow> real list" where
  "somes xs = map the (filter (\<lambda>c. c \<noteq> None) xs)"

subsection \<open>Cell arithmetic: a missing operand gives a missing result\<close>

fun lift2 :: "(real \<Rightarrow> real \<Rightarrow> real) \<Rightarrow> cell \<Rightarrow> cell \<Rightarrow> cell" where
  "lift2 f (Some a) (Some b) = Some (f a b)"
| "lift2 f _ _ = None"

definition oadd :: "cell \<Rightarrow> cell \<Rightarrow> cell" where
  "oadd = lift2 (+)"

definition osub :: "cell \<Rightarrow> cell \<Rightarrow> cell" where
  "osub = lift2 (-)"

definition omul :: "real \<Rightarrow> cell \<Rightarrow> cell" where
  "omul w c = map_option (\<lambda>v. w * v) c"

section \<open>Part 1: data preparation\<close>

text \<open>
  \<open>pct_change\<close>: the price divided by the previous price, minus one; the first date has
  no previous price. A zero previous price gives no finite number.
\<close>

fun pct :: "cell \<Rightarrow> cell \<Rightarrow> cell" where
  "pct (Some p) (Some q) = (if q = 0 then None else Some (p / q - 1))"
| "pct _ _ = None"

definition pct_change :: "series \<Rightarrow> series" where
  "pct_change s = map (\<lambda>t. if t = 0 then None else pct (s ! t) (s ! (t - 1))) [0..<length s]"

definition stock_rets :: "frame \<Rightarrow> frame" where
  "stock_rets stock_prices = fmap pct_change stock_prices"

definition snp_rets :: "series \<Rightarrow> series" where
  "snp_rets snp_prices = pct_change snp_prices"

text \<open>Subtracting the risk-free Series, aligned on the date index.\<close>

definition sub_aligned :: "series \<Rightarrow> series \<Rightarrow> series" where
  "sub_aligned s rf = map (\<lambda>t. osub (s ! t) (cell_at rf t)) [0..<length s]"

definition market_premium :: "series \<Rightarrow> series \<Rightarrow> series" where
  "market_premium snp_prices risk_free = sub_aligned (snp_rets snp_prices) risk_free"

definition stock_premium :: "frame \<Rightarrow> series \<Rightarrow> frame" where
  "stock_premium stock_prices risk_free =
     fmap (\<lambda>c. sub_aligned c risk_free) (stock_rets stock_prices)"

text \<open>
  \<open>rolling(window).apply(f, raw = True)\<close>: at date \<open>t\<close> the function is applied to the
  \<open>window\<close> cells ending at \<open>t\<close>; the result is missing unless the window is full and
  every cell in it is present (\<open>min_periods\<close> defaults to the window length).
\<close>

definition rolling_apply :: "nat \<Rightarrow> (real list \<Rightarrow> real) \<Rightarrow> series \<Rightarrow> series" where
  "rolling_apply W f s =
     map (\<lambda>t. if Suc t < W then None
              else map_option f (those (take W (drop (Suc t - W) s))))
         [0..<length s]"

text \<open>The lambda \<open>(1 + r).prod() - 1\<close>.\<close>

definition compound :: "real list \<Rightarrow> real" where
  "compound r = prod_list (map (\<lambda>x. 1 + x) r) - 1"

text \<open>
  The dictionaries \<open>form\<close> and \<open>hpr\<close>: \<open>form W\<close> and \<open>hpr W\<close> are the entries stored under
  key \<open>W\<close> by the two loops, whose key lists are \<open>form_windows\<close> and \<open>hpr_windows\<close>.
\<close>

definition form_windows :: "nat list" where
  "form_windows = [5, 30, 60, 90, 120]"

definition hpr_windows :: "nat list" where
  "hpr_windows = [5, 60, 120]"

definition form :: "nat \<Rightarrow> frame \<Rightarrow> frame" where
  "form W premium = fmap (rolling_apply W compound) premium"

text \<open>\<open>shift(-W)\<close>: the cell at date \<open>t\<close> is the old cell at date \<open>t + W\<close>, missing past the end.\<close>

definition shift_back :: "nat \<Rightarrow> series \<Rightarrow> series" where
  "shift_back W s = map (\<lambda>t. cell_at s (t + W)) [0..<length s]"

definition hpr :: "nat \<Rightarrow> frame \<Rightarrow> frame" where
  "hpr W premium = fmap (shift_back W) (form W premium)"

section \<open>Part 2: ranking and the portfolios\<close>

text \<open>
  \<open>rank(axis = 1, ascending = False)\<close> with pandas' defaults (\<open>method = 'average'\<close>,
  \<open>na_option = 'keep'\<close>): a missing cell stays missing; a value \<open>v\<close> gets the average of
  the positions its tie group occupies in descending order, that is the positions
  \<open>g + 1, \<dots>, g + e\<close> where \<open>g\<close> values are greater than \<open>v\<close> and \<open>e\<close> values equal it.
\<close>

definition rank_of :: "real list \<Rightarrow> real \<Rightarrow> real" where
  "rank_of vs v =
     (let g = length (filter (\<lambda>w. v < w) vs); e = length (filter (\<lambda>w. w = v) vs)
      in sum_list (map real [Suc g..<Suc (g + e)]) / real e)"

definition rank_desc :: "cell list \<Rightarrow> cell list" where
  "rank_desc r = map (map_option (rank_of (somes r))) r"

text \<open>\<open>max(axis = 1)\<close>: the largest non-missing cell of the row, missing if there is none.\<close>

definition max_skipna :: "cell list \<Rightarrow> cell" where
  "max_skipna r = (case somes r of [] \<Rightarrow> None | v # vs \<Rightarrow> Some (fold max vs v))"

definition rank_axis1 :: "frame \<Rightarrow> cell list list" where
  "rank_axis1 fr = map (\<lambda>t. rank_desc (row fr t)) [0..<ndates fr]"

definition max_axis1 :: "cell list list \<Rightarrow> series" where
  "max_axis1 rs = map max_skipna rs"

definition f_ranks :: "nat \<Rightarrow> frame \<Rightarrow> cell list list" where
  "f_ranks F premium = rank_axis1 (form F premium)"

definition f_max :: "nat \<Rightarrow> frame \<Rightarrow> series" where
  "f_max F premium = max_axis1 (rank_axis1 (form F premium))"

text \<open>
  The comparisons. Any comparison with a missing cell is False. \<open>ranks <= 5\<close> compares
  with a number; \<open>ranks.eq(f_max - 5, axis = 0)\<close> compares each rank of a date with that
  date's maximum minus five and yields booleans; \<open>ranks >= (that boolean table)\<close>
  compares each rank with a boolean, which counts as the number 1 or 0.
\<close>

definition le_mask :: "cell list \<Rightarrow> real \<Rightarrow> bool list" where
  "le_mask r k = map (\<lambda>c. case c of None \<Rightarrow> False | Some x \<Rightarrow> x \<le> k) r"

definition eq_mask :: "cell list \<Rightarrow> cell \<Rightarrow> bool list" where
  "eq_mask r m =
     map (\<lambda>c. case c of None \<Rightarrow> False
               | Some x \<Rightarrow> (case m of None \<Rightarrow> False | Some y \<Rightarrow> x = y)) r"

definition ge_bool_mask :: "cell list \<Rightarrow> bool list \<Rightarrow> bool list" where
  "ge_bool_mask r bs =
     map2 (\<lambda>c b. case c of None \<Rightarrow> False | Some x \<Rightarrow> (if b then 1 else 0) \<le> x) r bs"

definition long_mask :: "cell list \<Rightarrow> bool list" where
  "long_mask ranks = le_mask ranks 5"

definition short_mask :: "cell list \<Rightarrow> cell \<Rightarrow> bool list" where
  "short_mask ranks mx = ge_bool_mask ranks (eq_mask ranks (osub mx (Some 5)))"

text \<open>\<open>df[mask]\<close>: cells whose mask is False become missing.\<close>

definition where_mask :: "cell list \<Rightarrow> bool list \<Rightarrow> cell list" where
  "where_mask r bs = map2 (\<lambda>c b. if b then c else None) r bs"

text \<open>The row lambda \<open>(w * r).sum()\<close>: the sum skips missing cells and is 0 if all are missing.\<close>

definition weighted_sum :: "real \<Rightarrow> cell list \<Rightarrow> cell" where
  "weighted_sum w r = Some (sum_list (somes (map (omul w) r)))"

text \<open>The daily return of one date, from that date's ranks, maximum rank and holding returns.\<close>

definition daily :: "cell list \<Rightarrow> cell \<Rightarrow> cell list \<Rightarrow> cell" where
  "daily ranks mx h =
     oadd (weighted_sum (2 / 10) (where_mask h (long_mask ranks)))
          (weighted_sum (- (2 / 10)) (where_mask h (short_mask ranks mx)))"

text \<open>The strategy with formation window \<open>F\<close> and holding window \<open>H\<close> (\<open>f5hpr5\<close> is \<open>fhpr 5 5\<close>).\<close>

definition fhpr :: "nat \<Rightarrow> nat \<Rightarrow> frame \<Rightarrow> series" where
  "fhpr F H premium =
     map (\<lambda>t. daily (f_ranks F premium ! t) (f_max F premium ! t) (row (hpr H premium) t))
         [0..<ndates premium]"

text \<open>
  \<open>cumprod\<close> runs forward once through the Series, skipping missing cells (they stay
  missing and leave the running product unchanged).
\<close>

fun cumprod_from :: "real \<Rightarrow> series \<Rightarrow> series" where
  "cumprod_from acc [] = []"
| "cumprod_from acc (None # xs) = None # cumprod_from acc xs"
| "cumprod_from acc (Some v # xs) = Some (acc * v) # cumprod_from (acc * v) xs"

definition cumprod :: "series \<Rightarrow> series" where
  "cumprod s = cumprod_from 1 s"

definition cumrets :: "series \<Rightarrow> series" where
  "cumrets s = map (\<lambda>c. osub c (Some 1)) (cumprod (map (oadd (Some 1)) s))"

section \<open>Part 3: the performance table\<close>

text \<open>The nine strategies in the order of the loop and of the table's index.\<close>

definition strategies :: "(nat \<times> nat) list" where
  "strategies = [(5, 5), (5, 60), (5, 120), (30, 5), (30, 60), (30, 120),
                 (90, 5), (90, 60), (90, 120)]"

definition portfolios :: "frame \<Rightarrow> series list" where
  "portfolios premium = map (\<lambda>(F, H). fhpr F H premium) strategies"

text \<open>
  \<open>np.average\<close> converts the Series to an array and does not skip missing cells: one
  missing cell makes the result missing, and so does an empty Series. \<open>np.min\<close> and
  \<open>np.max\<close> of a Series dispatch to the Series methods \<open>min()\<close> and \<open>max()\<close>, which skip
  missing cells and give a missing value when no cell is present.
\<close>

definition np_average :: "series \<Rightarrow> cell" where
  "np_average s =
     (case those s of None \<Rightarrow> None
      | Some vs \<Rightarrow> if vs = [] then None else Some (sum_list vs / real (length vs)))"

definition np_min :: "series \<Rightarrow> cell" where
  "np_min s = (case somes s of [] \<Rightarrow> None | v # vs \<Rightarrow> Some (fold min vs v))"

definition np_max :: "series \<Rightarrow> cell" where
  "np_max s = (case somes s of [] \<Rightarrow> None | v # vs \<Rightarrow> Some (fold max vs v))"

text \<open>The Series method \<open>mean()\<close> skips missing cells.\<close>

definition mean_skipna :: "series \<Rightarrow> cell" where
  "mean_skipna s =
     (case somes s of [] \<Rightarrow> None | v # vs \<Rightarrow> Some (sum_list (v # vs) / real (length (v # vs))))"

record perform_row =
  port_avg_rets :: cell
  port_min_rets :: cell
  port_max_rets :: cell
  snp_avg_rets :: cell
  port_diff :: cell

text \<open>
  The table is built column by column: the three lists filled by the loop, the market
  mean repeated once per strategy, and then the column \<open>port diff\<close> as the difference
  of two columns.
\<close>

definition port_perform :: "frame \<Rightarrow> series \<Rightarrow> perform_row list" where
  "port_perform premium mkt =
     (let ps = portfolios premium;
          avg_rets = map np_average ps;
          min_rets = map np_min ps;
          max_rets = map np_max ps;
          snp = replicate (length avg_rets) (mean_skipna mkt);
          diff = map2 osub avg_rets snp
      in map (\<lambda>k. \<lparr>port_avg_rets = avg_rets ! k, port_min_rets = min_rets ! k,
                      port_max_rets = max_rets ! k, snp_avg_rets = snp ! k,
                      port_diff = diff ! k\<rparr>) [0..<length avg_rets])"

section \<open>The short side as the specification words it\<close>

text \<open>
  For comparison with the source only: the short bucket read as "rank at least the
  maximum rank minus five", and the daily return with the short side weighted by one
  over the size of that bucket.
\<close>

definition claimed_short_mask :: "cell list \<Rightarrow> cell \<Rightarrow> bool list" where
  "claimed_short_mask ranks mx =
     map (\<lambda>c. case c of None \<Rightarrow> False
               | Some x \<Rightarrow> (case mx of None \<Rightarrow> False | Some m \<Rightarrow> m - 5 \<le> x)) ranks"


section \<open>Example inputs\<close>

text \<open>
  Three tickers over six dates: a premium table with constant premiums 1, 0 and 1/2, and
  a price table with constant prices, with a zero and a one-percent risk-free rate.
\<close>

definition ex_premium :: frame where
  "ex_premium = \<lparr>ndates = 6, cols =
     [[Some 1, Some 1, Some 1, Some 1, Some 1, Some 1],
      [Some 0, Some 0, Some 0, Some 0, Some 0, Some 0],
      [Some (1/2), Some (1/2), Some (1/2), Some (1/2), Some (1/2), Some (1/2)]]\<rparr>"

definition ex_prices :: frame where
  "ex_prices = \<lparr>ndates = 6, cols =
     [[Some 100, Some 100, Some 100, Some 100, Some 100, Some 100],
      [Some 50, Some 50, Some 50, Some 50, Some 50, Some 50],
      [Some 20, Some 20, Some 20, Some 20, Some 20, Some 20]]\<rparr>"

definition ex_rf0 :: series where
  "ex_rf0 = [Some 0, Some 0, Some 0, Some 0, Some 0, Some 0]"

definition ex_rf :: series where
  "ex_rf = [Some (1/100), Some (1/100), Some (1/100), Some (1/100), Some (1/100), Some (1/100)]"

text \<open>
  Six tickers over eleven dates, as a premium table is after \<open>pct_change\<close>: the first
  date is missing, each ticker has a constant premium, and the fourth ticker lacks its
  last observation. With it, a market premium series of mean 1/100.
\<close>

definition ex_six :: frame where
  "ex_six = \<lparr>ndates = 11, cols =
     [[None, Some 3, Some 3, Some 3, Some 3, Some 3, Some 3, Some 3, Some 3, Some 3, Some 3],
      [None, Some 1, Some 1, Some 1, Some 1, Some 1, Some 1, Some 1, Some 1, Some 1, Some 1],
      [None, Some 6, Some 6, Some 6, Some 6, Some 6, Some 6, Some 6, Some 6, Some 6, Some 6],
      [None, Some 2, Some 2, Some 2, Some 2, Some 2, Some 2, Some 2, Some 2, Some 2, None],
      [None, Some 5, Some 5, Some 5, Some 5, Some 5, Some 5, Some 5, Some 5, Some 5, Some 5],
      [None, Some 4, Some 4, Some 4, Some 4, Some 4, Some 4, Some 4, Some 4, Some 4, Some 4]]\<rparr>"

definition ex_mkt :: series where
  "ex_mkt = [None, Some (2 / 100), Some 0, Some (2 / 100), Some 0, Some (2 / 100), Some 0,
             Some (2 / 100), Some 0, Some (2 / 100), Some 0]"

section \<open>Basic facts\<close>

lemma cell_at_nth: "t < length s \<Longrightarrow> cell_at s t = s ! t"
  by (simp add: cell_at_def)

lemma length_pct_change: "length (pct_change s) = length s"
  by (simp add: pct_change_def)

lemma length_sub_aligned: "length (sub_aligned s rf) = length s"
  by (simp add: sub_aligned_def)

lemma length_rolling_apply: "length (rolling_apply W f s) = length s"
  by (simp add: rolling_apply_def)

lemma length_shift_back: "length (shift_back W s) = length s"
  by (simp add: shift_back_def)

lemma somes_Nil: "somes [] = []"
  by (simp add: somes_def)

lemma somes_None: "somes (None # xs) = somes xs"
  by (simp add: somes_def)

lemma somes_Some: "somes (Some v # xs) = v # somes xs"
  by (simp add: somes_def)

lemmas somes_simps = somes_Nil somes_None somes_Some

lemma those_all: "those xs = (if list_all (\<lambda>c. c \<noteq> None) xs then Some (map the xs) else None)"
  by (induction xs) (auto split: option.splits)

lemma cols_fmap: "cols (fmap f fr) = map f (cols fr)"
  by (simp add: fmap_def)

lemma ndates_fmap: "ndates (fmap f fr) = ndates fr"
  by (simp add: fmap_def)

lemma length_row: "length (row fr t) = length (cols fr)"
  by (simp add: row_def)

lemma length_rank_desc: "length (rank_desc r) = length r"
  by (simp add: rank_desc_def)

lemma length_long_mask: "length (long_mask r) = length r"
  by (simp add: long_mask_def le_mask_def)

lemma length_short_mask: "length (short_mask r m) = length r"
  by (simp add: short_mask_def ge_bool_mask_def eq_mask_def)

lemma cols_form: "cols (form W p) = map (rolling_apply W compound) (cols p)"
  by (simp add: form_def cols_fmap)

lemma cols_hpr: "cols (hpr W p) = map (shift_back W) (map (rolling_apply W compound) (cols p))"
  by (simp add: hpr_def cols_fmap cols_form)

lemma ndates_form: "ndates (form W p) = ndates p"
  by (simp add: form_def ndates_fmap)

lemma ndates_hpr: "ndates (hpr W p) = ndates p"
  by (simp add: hpr_def ndates_fmap ndates_form)

lemma f_ranks_nth: "t < ndates p \<Longrightarrow> f_ranks F p ! t = rank_desc (row (form F p) t)"
  by (simp add: f_ranks_def rank_axis1_def ndates_form)

lemma f_max_nth: "t < ndates p \<Longrightarrow> f_max F p ! t = max_skipna (rank_desc (row (form F p) t))"
  by (simp add: f_max_def max_axis1_def rank_axis1_def ndates_form)

lemma fhpr_nth:
  "t < ndates p \<Longrightarrow> fhpr F H p ! t = daily (f_ranks F p ! t) (f_max F p ! t) (row (hpr H p) t)"
  by (simp add: fhpr_def)

lemma length_fhpr: "length (fhpr F H p) = ndates p"
  by (simp add: fhpr_def)

lemma length_f_ranks_nth: "t < ndates p \<Longrightarrow> length (f_ranks F p ! t) = length (cols p)"
  by (simp add: f_ranks_nth length_rank_desc length_row cols_form)

lemma length_row_hpr: "length (row (hpr H p) t) = length (cols p)"
  by (simp add: length_row cols_hpr)

section \<open>Formation and holding windows\<close>

lemma prod_list_window:
  "a + W \<le> length s \<Longrightarrow> prod_list (map f (take W (drop a s))) = (\<Prod>j<W. f (s ! (a + j)))"
proof (induction W)
  case 0
  then show ?case by simp
next
  case (Suc W)
  then have "take (Suc W) (drop a s) = take W (drop a s) @ [s ! (a + W)]"
    by (simp add: take_Suc_conv_app_nth)
  with Suc show ?case by simp
qed

lemma window_all:
  assumes "W \<le> Suc t" "t < length s"
  shows "list_all P (take W (drop (Suc t - W) s)) = (\<forall>k<W. P (s ! (t - k)))"
proof -
  have len: "length (take W (drop (Suc t - W) s)) = W"
    using assms by simp
  have "list_all P (take W (drop (Suc t - W) s)) = (\<forall>j<W. P (s ! (Suc t - W + j)))"
    using assms by (simp add: list_all_length)
  also have "\<dots> = (\<forall>k<W. P (s ! (t - k)))"
  proof
    assume h: "\<forall>j<W. P (s ! (Suc t - W + j))"
    show "\<forall>k<W. P (s ! (t - k))"
    proof (intro allI impI)
      fix k assume "k < W"
      then have "W - Suc k < W" "Suc t - W + (W - Suc k) = t - k"
        using assms by auto
      with h show "P (s ! (t - k))" by metis
    qed
  next
    assume h: "\<forall>k<W. P (s ! (t - k))"
    show "\<forall>j<W. P (s ! (Suc t - W + j))"
    proof (intro allI impI)
      fix j assume "j < W"
      then have "W - Suc j < W" "t - (W - Suc j) = Suc t - W + j"
        using assms by auto
      with h show "P (s ! (Suc t - W + j))" by metis
    qed
  qed
  finally show ?thesis .
qed

lemma window_prod:
  assumes "W \<le> Suc t" "t < length s"
  shows "prod_list (map f (take W (drop (Suc t - W) s))) = (\<Prod>k<W. f (s ! (t - k)))"
proof -
  have "prod_list (map f (take W (drop (Suc t - W) s))) = (\<Prod>j<W. f (s ! (Suc t - W + j)))"
    using assms by (intro prod_list_window) simp
  also have "\<dots> = (\<Prod>j<W. f (s ! (t - (W - Suc j))))"
    using assms by (intro prod.cong) auto
  also have "\<dots> = (\<Prod>k<W. f (s ! (t - k)))"
    by (rule prod.nat_diff_reindex)
  finally show ?thesis .
qed

lemma rolling_apply_nth:
  assumes "t < length s"
  shows "rolling_apply W compound s ! t =
     (if W \<le> Suc t \<and> (\<forall>k<W. s ! (t - k) \<noteq> None)
      then Some ((\<Prod>k<W. 1 + the (s ! (t - k))) - 1) else None)"
proof (cases "W \<le> Suc t")
  case False
  with assms show ?thesis by (simp add: rolling_apply_def)
next
  case True
  have "prod_list (map (\<lambda>x. 1 + x) (map the (take W (drop (Suc t - W) s))))
        = (\<Prod>k<W. 1 + the (s ! (t - k)))"
    using window_prod [OF True assms, of "\<lambda>c. 1 + the c"] by (simp add: comp_def)
  with True assms show ?thesis
    by (simp add: rolling_apply_def those_all window_all compound_def)
qed

lemma shift_back_nth:
  "t < length s \<Longrightarrow> shift_back H s ! t = (if t + H < length s then s ! (t + H) else None)"
  by (simp add: shift_back_def cell_at_def)

text \<open>
  Claim C4. For every window \<open>W\<close> in \<open>{5, 30, 60, 90, 120}\<close>, every ticker \<open>i\<close> and every
  date \<open>t\<close>: if the \<open>W\<close> premium observations ending at \<open>t\<close> all exist and are
  non-missing, the formation return is the product over \<open>k = 0, \<dots>, W - 1\<close> of
  \<open>1 + premium(t - k, i)\<close>, minus 1; otherwise (fewer than \<open>W\<close> dates so far, or a missing
  observation in the window) it is missing, not zero.
\<close>

theorem form_compounds:
  assumes "W \<in> set form_windows" "i < length (cols premium)" "t < length (cols premium ! i)"
  shows "cols (form W premium) ! i ! t =
     (if W \<le> Suc t \<and> (\<forall>k<W. cols premium ! i ! (t - k) \<noteq> None)
      then Some ((\<Prod>k<W. 1 + the (cols premium ! i ! (t - k))) - 1) else None)"
  using assms by (simp add: form_def cols_fmap rolling_apply_nth)

theorem form_compounds_witness:
  "5 \<in> set form_windows \<and> cols (form 5 ex_premium) ! 0 ! 4 = Some 31
   \<and> cols (form 5 ex_premium) ! 0 ! 3 = None"
  using form_compounds [where W = 5 and premium = ex_premium and i = 0 and t = 4]
    form_compounds [where W = 5 and premium = ex_premium and i = 0 and t = 3]
  by (simp add: form_windows_def ex_premium_def eval_nat_numeral All_less_Suc)

text \<open>
  Claim C5. For every holding window \<open>H\<close> in \<open>{5, 60, 120}\<close>, every ticker \<open>i\<close> and every
  date \<open>t\<close>: the holding return at \<open>t\<close> is the window-\<open>H\<close> formation return at \<open>t + H\<close>
  when \<open>t + H\<close> is a date of the index, and it is missing on the last \<open>H\<close> dates.
\<close>

theorem hpr_is_shifted_form:
  assumes "H \<in> set hpr_windows" "i < length (cols premium)" "t < length (cols premium ! i)"
  shows "cols (hpr H premium) ! i ! t =
     (if t + H < length (cols premium ! i) then cols (form H premium) ! i ! (t + H) else None)"
  using assms by (simp add: hpr_def form_def cols_fmap shift_back_nth length_rolling_apply)

theorem hpr_is_shifted_form_witness:
  "5 \<in> set hpr_windows
   \<and> cols (hpr 5 ex_premium) ! 0 ! 0 = cols (form 5 ex_premium) ! 0 ! 5
   \<and> cols (hpr 5 ex_premium) ! 0 ! 1 = None"
  using hpr_is_shifted_form [where H = 5 and premium = ex_premium and i = 0 and t = 0]
    hpr_is_shifted_form [where H = 5 and premium = ex_premium and i = 0 and t = 1]
  by (simp add: hpr_windows_def ex_premium_def)

section \<open>Constant prices\<close>

lemma pct_change_const:
  assumes "\<forall>u<length s. s ! u = Some p" "t < length s" "pct_change s ! t = Some r"
  shows "r = 0"
  using assms by (auto simp: pct_change_def split: if_splits)

lemma sub_aligned_some:
  assumes "t < length s" "sub_aligned s rf ! t = Some x"
  shows "\<exists>a b. s ! t = Some a \<and> cell_at rf t = Some b \<and> x = a - b"
  using assms by (cases "s ! t"; cases "cell_at rf t") (auto simp: sub_aligned_def osub_def)

text \<open>
  Claim C8, as stated, asks return and premium of a constant-price ticker to be zero
  wherever defined. The return is; the premium is the return minus the risk-free rate,
  so with a risk-free rate of one percent it is minus one percent: ticker 1 of the
  example has the constant price 50 and a premium of \<open>-1/100\<close> at date 2.
\<close>

theorem constant_price_premium_counterexample:
  "cols ex_prices ! 1 = [Some 50, Some 50, Some 50, Some 50, Some 50, Some 50]
   \<and> cols (stock_rets ex_prices) ! 1 ! 2 = Some 0
   \<and> cols (stock_premium ex_prices ex_rf) ! 1 ! 2 = Some (- (1 / 100))
   \<and> cols (stock_premium ex_prices ex_rf) ! 1 ! 2 \<noteq> Some 0"
  by code_simp

text \<open>
  Claim C8, amended. For a ticker whose price is the same number \<open>p\<close> at every date,
  every defined return is 0 and every defined premium is minus the risk-free rate of
  that date (so it is 0 exactly where the risk-free rate is 0); if \<open>p\<close> is not zero,
  the return is defined and 0 at every date after the first.
\<close>

theorem constant_price_returns:
  assumes "i < length (cols stock_prices)"
    and "\<forall>u<length (cols stock_prices ! i). cols stock_prices ! i ! u = Some p"
    and "t < length (cols stock_prices ! i)"
  shows "(\<forall>r. cols (stock_rets stock_prices) ! i ! t = Some r \<longrightarrow> r = 0)
       \<and> (\<forall>x. cols (stock_premium stock_prices risk_free) ! i ! t = Some x
              \<longrightarrow> (\<exists>b. cell_at risk_free t = Some b \<and> x = - b))
       \<and> (p \<noteq> 0 \<and> 0 < t \<longrightarrow> cols (stock_rets stock_prices) ! i ! t = Some 0
              \<and> cols (stock_premium stock_prices risk_free) ! i ! t
                  = osub (Some 0) (cell_at risk_free t))"
proof -
  let ?s = "cols stock_prices ! i"
  have rets: "cols (stock_rets stock_prices) ! i = pct_change ?s"
    using assms(1) by (simp add: stock_rets_def cols_fmap)
  have prem: "cols (stock_premium stock_prices risk_free) ! i = sub_aligned (pct_change ?s) risk_free"
    using assms(1) by (simp add: stock_premium_def stock_rets_def cols_fmap)
  have a: "\<forall>r. pct_change ?s ! t = Some r \<longrightarrow> r = 0"
    using pct_change_const [OF assms(2) assms(3)] by blast
  have b: "\<forall>x. sub_aligned (pct_change ?s) risk_free ! t = Some x
              \<longrightarrow> (\<exists>b. cell_at risk_free t = Some b \<and> x = - b)"
  proof (intro allI impI)
    fix x assume "sub_aligned (pct_change ?s) risk_free ! t = Some x"
    then obtain a b where "pct_change ?s ! t = Some a" "cell_at risk_free t = Some b" "x = a - b"
      using sub_aligned_some [of t "pct_change ?s" risk_free x] assms(3)
      by (auto simp: length_pct_change)
    with a show "\<exists>b. cell_at risk_free t = Some b \<and> x = - b" by auto
  qed
  have c: "pct_change ?s ! t = Some 0" if "p \<noteq> 0" "0 < t"
    using that assms(2,3) by (simp add: pct_change_def)
  have d: "sub_aligned (pct_change ?s) risk_free ! t = osub (Some 0) (cell_at risk_free t)"
    if "p \<noteq> 0" "0 < t"
    using c [OF that] assms(3) by (simp add: sub_aligned_def length_pct_change)
  show ?thesis
    using a b c d by (simp add: rets prem)
qed

theorem constant_price_returns_witness:
  "cols (stock_rets ex_prices) ! 0 ! 1 = Some 0
   \<and> cols (stock_premium ex_prices ex_rf) ! 0 ! 1 = Some (- (1 / 100))"
  using constant_price_returns [where i = 0 and stock_prices = ex_prices and p = 100 and t = 1
      and risk_free = ex_rf]
  by (simp add: ex_prices_def ex_rf_def cell_at_def osub_def less_Suc_eq nth_Cons')

section \<open>Ranks\<close>

lemma somes_map_option: "somes (map (map_option f) xs) = map f (somes xs)"
  by (induction xs) (auto simp: somes_def)

lemma set_somes: "v \<in> set (somes r) \<longleftrightarrow> Some v \<in> set r"
  by (induction r) (auto simp: somes_def)

lemma sum_upt_real:
  "sum_list (map real [a..<a + e]) = real e * real a + real e * (real e - 1) / 2"
  by (induction e) (simp_all add: field_simps)

lemma rank_of_closed:
  assumes "v \<in> set vs"
  shows "rank_of vs v = real (length (filter (\<lambda>w. v < w) vs))
                        + (real (length (filter (\<lambda>w. w = v) vs)) + 1) / 2"
proof -
  let ?g = "length (filter (\<lambda>w. v < w) vs)" and ?e = "length (filter (\<lambda>w. w = v) vs)"
  have "v \<in> set (filter (\<lambda>w. w = v) vs)" using assms by simp
  then have pos: "0 < ?e" by (rule length_pos_if_in_set)
  have "[Suc ?g..<Suc (?g + ?e)] = [Suc ?g..<Suc ?g + ?e]" by simp
  then have "sum_list (map real [Suc ?g..<Suc (?g + ?e)])
           = real ?e * real (Suc ?g) + real ?e * (real ?e - 1) / 2"
    by (simp only: sum_upt_real)
  then have "rank_of vs v = (real ?e * real (Suc ?g) + real ?e * (real ?e - 1) / 2) / real ?e"
    by (simp add: rank_of_def Let_def)
  also have "\<dots> = real ?g + (real ?e + 1) / 2"
    using pos by (simp add: field_simps)
  finally show ?thesis .
qed

lemma count_chain:
  "w < v \<Longrightarrow> length (filter (\<lambda>x. v < x) vs) + length (filter (\<lambda>x. x = v) vs)
             \<le> length (filter (\<lambda>x. (w::real) < x) vs)"
  by (induction vs) auto

lemma rank_of_antitone:
  assumes "v \<in> set vs" "w \<in> set vs" "w < v"
  shows "rank_of vs v < rank_of vs w"
proof -
  let ?gv = "length (filter (\<lambda>x. v < x) vs)" and ?ev = "length (filter (\<lambda>x. x = v) vs)"
  let ?gw = "length (filter (\<lambda>x. w < x) vs)" and ?ew = "length (filter (\<lambda>x. x = w) vs)"
  have "v \<in> set (filter (\<lambda>x. x = v) vs)" using assms by simp
  then have "0 < ?ev" by (rule length_pos_if_in_set)
  then have "Suc 0 \<le> ?ev" by (rule Suc_leI)
  then have "real (Suc 0) \<le> real ?ev" by (simp only: of_nat_le_iff)
  then have pos: "1 \<le> real ?ev" by (simp only: of_nat_Suc of_nat_0 add_0)
  have "?gv + ?ev \<le> ?gw" using assms(3) by (rule count_chain)
  then have "real (?gv + ?ev) \<le> real ?gw" by (simp only: of_nat_le_iff)
  then have chain: "real ?gv + real ?ev \<le> real ?gw" by simp
  have "real ?gv + (real ?ev + 1) / 2 < real ?gw + (real ?ew + 1) / 2"
    using pos chain by (simp add: field_simps) 
  then show ?thesis
    using assms by (simp add: rank_of_closed)
qed

lemma distinct_count_eq:
  assumes "distinct vs" "v \<in> set vs"
  shows "length (filter (\<lambda>w. w = v) vs) = 1"
proof -
  have "{w. w = v} \<inter> set vs = {v}" using assms(2) by auto
  then show ?thesis using assms(1) by (simp add: distinct_length_filter)
qed

lemma rank_of_distinct:
  assumes "distinct vs" "v \<in> set vs"
  shows "rank_of vs v = real (Suc (length (filter (\<lambda>w. v < w) vs)))"
  using assms by (simp add: rank_of_closed distinct_count_eq)

lemma greater_count_perm:
  assumes "distinct (vs::real list)"
  shows "mset (map (\<lambda>v. length (filter (\<lambda>w. v < w) vs)) vs) = mset [0..<length vs]"
proof -
  let ?g = "\<lambda>v. card {w \<in> set vs. v < w}"
  have g_eq: "length (filter (\<lambda>w. v < w) vs) = ?g v" for v
  proof -
    have "{w. v < w} \<inter> set vs = {w \<in> set vs. v < w}" by auto
    then show ?thesis using assms by (simp add: distinct_length_filter)
  qed
  have strict: "?g v' < ?g v" if "v \<in> set vs" "v' \<in> set vs" "v < v'" for v v'
  proof -
    have "{w \<in> set vs. v' < w} \<subset> {w \<in> set vs. v < w}" using that by auto
    then show ?thesis by (intro psubset_card_mono) auto
  qed
  have inj: "inj_on ?g (set vs)"
  proof (rule inj_onI)
    fix x y assume x: "x \<in> set vs" and y: "y \<in> set vs" and eq: "?g x = ?g y"
    show "x = y"
    proof (rule ccontr)
      assume "x \<noteq> y"
      then consider "x < y" | "y < x" by linarith
      then show False
      proof cases
        case 1 with strict [OF x y] eq show False by simp
      next
        case 2 with strict [OF y x] eq show False by simp
      qed
    qed
  qed
  have sub: "?g ` set vs \<subseteq> {0..<length vs}"
  proof
    fix n assume "n \<in> ?g ` set vs"
    then obtain v where v: "v \<in> set vs" and n: "n = ?g v" by auto
    have "{w \<in> set vs. v < w} \<subset> set vs" using v by auto
    then have "?g v < card (set vs)" by (intro psubset_card_mono) auto
    then show "n \<in> {0..<length vs}" using assms n by (simp add: distinct_card)
  qed
  have "card (?g ` set vs) = length vs"
    using inj assms by (simp add: card_image distinct_card)
  then have img: "?g ` set vs = {0..<length vs}"
    using sub by (intro card_subset_eq) auto
  have "mset (map ?g vs) = image_mset ?g (mset vs)" by simp
  also have "\<dots> = image_mset ?g (mset_set (set vs))"
    using assms by (simp add: mset_set_set)
  also have "\<dots> = mset_set (?g ` set vs)"
    using inj by (rule image_mset_mset_set)
  also have "\<dots> = mset [0..<length vs]" by (simp add: img)
  finally show ?thesis by (simp add: g_eq)
qed

lemma ranks_perm:
  assumes "distinct (somes r)"
  shows "mset (somes (rank_desc r)) = mset (map real [1..<Suc (length (somes r))])"
proof -
  let ?vs = "somes r"
  let ?g = "\<lambda>v. length (filter (\<lambda>w. v < w) ?vs)"
  have "somes (rank_desc r) = map (rank_of ?vs) ?vs"
    by (simp add: rank_desc_def somes_map_option)
  also have "\<dots> = map (\<lambda>v. real (Suc (?g v))) ?vs"
    using assms by (intro map_cong) (simp_all add: rank_of_distinct)
  finally have A: "somes (rank_desc r) = map (\<lambda>v. real (Suc (?g v))) ?vs" .
  have B: "mset (map (\<lambda>v. real (Suc (?g v))) ?vs)
         = image_mset (\<lambda>n. real (Suc n)) (mset (map ?g ?vs))"
    by (simp only: mset_map multiset.map_comp comp_def)
  have C: "mset (map ?g ?vs) = mset [0..<length ?vs]"
    using assms by (rule greater_count_perm)
  have E: "[1..<Suc (length ?vs)] = map Suc [0..<length ?vs]"
    by (simp only: map_Suc_upt One_nat_def)
  have D: "image_mset (\<lambda>n. real (Suc n)) (mset [0..<length ?vs])
         = mset (map real (map Suc [0..<length ?vs]))"
    by (simp only: mset_map multiset.map_comp comp_def)
  show ?thesis
    by (simp only: A B C D E)
qed

lemma rank_desc_nth:
  "i < length r \<Longrightarrow> rank_desc r ! i = map_option (rank_of (somes r)) (r ! i)"
  by (simp add: rank_desc_def)

text \<open>
  Claim C3, as stated, asks the ranks of a date to be a permutation of \<open>1, \<dots>, N\<close> with
  ties broken by ticker order. The source ranks with pandas' default method, which gives
  tied values the average of their positions. With three tickers of constant price and a
  zero risk-free rate, the three formation returns of date 5 are equal and every ticker
  gets rank 2.
\<close>

theorem tied_ranks_counterexample:
  "f_ranks 5 (stock_premium ex_prices ex_rf0) ! 5 = [Some 2, Some 2, Some 2]"
  by code_simp

lemma max_skipna_rank:
  assumes "somes r \<noteq> []"
  shows "max_skipna (rank_desc r)
       = Some (real (length (somes r))
               - (real (length (filter (\<lambda>w. w = Min (set (somes r))) (somes r))) - 1) / 2)"
proof -
  let ?vs = "somes r"
  let ?f = "rank_of ?vs"
  let ?v0 = "Min (set ?vs)"
  obtain a as where vs: "?vs = a # as" using assms by (cases ?vs) auto
  have S: "somes (rank_desc r) = map ?f ?vs"
    by (simp add: rank_desc_def somes_map_option)
  have "max_skipna (rank_desc r) = Some (fold max (map ?f as) (?f a))"
    by (simp add: max_skipna_def S vs)
  also have "fold max (map ?f as) (?f a) = Max (set (?f a # map ?f as))"
    by (rule Max.set_eq_fold [symmetric])
  also have "set (?f a # map ?f as) = ?f ` set ?vs"
    by (simp add: vs)
  finally have M: "max_skipna (rank_desc r) = Some (Max (?f ` set ?vs))" .
  have v0: "?v0 \<in> set ?vs" using assms by (intro Min_in) auto
  have le: "?v0 \<le> v" if "v \<in> set ?vs" for v using that by (intro Min_le) auto
  have "Max (?f ` set ?vs) = ?f ?v0"
  proof (rule Max_eqI)
    show "finite (?f ` set ?vs)" by simp
    show "?f ?v0 \<in> ?f ` set ?vs" using v0 by (rule imageI)
    fix y assume "y \<in> ?f ` set ?vs"
    then obtain v where v: "v \<in> set ?vs" and y: "y = ?f v" by auto
    show "y \<le> ?f ?v0"
    proof (cases "v = ?v0")
      case True with y show ?thesis by simp
    next
      case False
      with le [OF v] have "?v0 < v" by simp
      with v v0 have "?f v < ?f ?v0" by (intro rank_of_antitone)
      with y show ?thesis by simp
    qed
  qed
  moreover have "?f ?v0 = real (length ?vs)
               - (real (length (filter (\<lambda>w. w = ?v0) ?vs)) - 1) / 2"
  proof -
    have "filter (\<lambda>x. \<not> ?v0 < x) ?vs = filter (\<lambda>x. x = ?v0) ?vs"
    proof (rule filter_cong [OF refl])
      fix x assume "x \<in> set ?vs"
      then have "?v0 \<le> x" by (rule le)
      then show "(\<not> ?v0 < x) = (x = ?v0)" by (auto simp: not_less)
    qed
    then have "length (filter (\<lambda>x. ?v0 < x) ?vs) + length (filter (\<lambda>x. x = ?v0) ?vs) = length ?vs"
      using sum_length_filter_compl [of "\<lambda>x. ?v0 < x" ?vs] by simp
    then have "real (length (filter (\<lambda>x. ?v0 < x) ?vs))
             = real (length ?vs) - real (length (filter (\<lambda>x. x = ?v0) ?vs))"
      by (metis add_diff_cancel_right' of_nat_add)
    then show ?thesis
      using v0 by (simp add: rank_of_closed field_simps)
  qed
  ultimately show ?thesis using M by simp
qed

lemma max_skipna_rank_none:
  assumes "somes r = []"
  shows "max_skipna (rank_desc r) = None"
  using assms by (simp add: max_skipna_def rank_desc_def somes_map_option)

lemma count_somes:
  "length (filter P (somes r)) = card {j. j < length r \<and> (\<exists>w. r ! j = Some w \<and> P w)}"
proof -
  have "length (filter P (somes r)) = length (filter (\<lambda>c. c \<noteq> None \<and> P (the c)) r)"
    by (induction r) (auto simp: somes_def)
  also have "\<dots> = card {j. j < length r \<and> (r ! j \<noteq> None \<and> P (the (r ! j)))}"
    by (rule length_filter_conv_card)
  also have "{j. j < length r \<and> (r ! j \<noteq> None \<and> P (the (r ! j)))}
           = {j. j < length r \<and> (\<exists>w. r ! j = Some w \<and> P w)}"
    by auto
  finally show ?thesis .
qed

lemma length_somes_card: "length (somes xs) = card {t. t < length xs \<and> xs ! t \<noteq> None}"
  unfolding somes_def length_map by (rule length_filter_conv_card)

lemma rank_desc_tie_rule:
  assumes "i < length r" and "r ! i = Some v"
  shows "rank_desc r ! i =
     Some (real (card {j. j < length r \<and> (\<exists>w. r ! j = Some w \<and> v < w)})
           + (real (card {j. j < length r \<and> r ! j = Some v}) + 1) / 2)"
proof -
  have "Some v \<in> set r" using assms by (metis nth_mem)
  then have v: "v \<in> set (somes r)" by (simp add: set_somes)
  have e: "{j. j < length r \<and> (\<exists>w. r ! j = Some w \<and> w = v)} = {j. j < length r \<and> r ! j = Some v}"
    by auto
  have "rank_desc r ! i = Some (rank_of (somes r) v)"
    using assms by (simp add: rank_desc_nth)
  also have "rank_of (somes r) v = real (length (filter (\<lambda>w. v < w) (somes r)))
                        + (real (length (filter (\<lambda>w. w = v) (somes r))) + 1) / 2"
    using v by (rule rank_of_closed)
  finally show ?thesis by (simp only: count_somes e)
qed

lemma max_skipna_rank_distinct:
  assumes "distinct (somes r)" and "somes r \<noteq> []"
  shows "max_skipna (rank_desc r) = Some (real (length (somes r)))"
proof -
  have "Min (set (somes r)) \<in> set (somes r)" using assms(2) by (intro Min_in) auto
  then have "length (filter (\<lambda>w. w = Min (set (somes r))) (somes r)) = 1"
    using assms(1) by (intro distinct_count_eq)
  then show ?thesis by (simp add: max_skipna_rank [OF assms(2)])
qed

text \<open>
  Claim C3, amended. On every date, a ticker has no rank exactly when it has no
  formation return, and a ticker with formation return \<open>v\<close> has the rank
  \<open>g + (e + 1) / 2\<close>, where \<open>g\<close> tickers have a formation return above \<open>v\<close> and \<open>e\<close>
  tickers (itself included) have the formation return \<open>v\<close>: the average of the positions
  \<open>g + 1, \<dots>, g + e\<close> that its tie group occupies in descending order, not an ordinal rank
  by ticker order. A larger formation return has a smaller rank. On a date whose
  non-missing formation returns are pairwise distinct, the ranks are a permutation of
  \<open>1, \<dots>, N\<close>, where \<open>N\<close> is the number of tickers with a formation return, and \<open>N\<close> is the
  maximum rank of the date.
\<close>

theorem f_ranks_permutation:
  assumes "t < ndates premium"
  shows "length (f_ranks F premium ! t) = length (cols premium)
    \<and> (\<forall>i<length (cols premium).
          (f_ranks F premium ! t ! i = None) = (row (form F premium) t ! i = None))
    \<and> (\<forall>i<length (cols premium). \<forall>v. row (form F premium) t ! i = Some v \<longrightarrow>
          f_ranks F premium ! t ! i =
            Some (real (card {j. j < length (cols premium)
                               \<and> (\<exists>w. row (form F premium) t ! j = Some w \<and> v < w)})
                  + (real (card {j. j < length (cols premium)
                                  \<and> row (form F premium) t ! j = Some v}) + 1) / 2))
    \<and> (\<forall>i<length (cols premium). \<forall>j<length (cols premium). \<forall>v w.
          row (form F premium) t ! i = Some v \<and> row (form F premium) t ! j = Some w \<and> w < v
          \<longrightarrow> (\<exists>a b. f_ranks F premium ! t ! i = Some a \<and> f_ranks F premium ! t ! j = Some b
                     \<and> a < b))
    \<and> (distinct (somes (row (form F premium) t)) \<longrightarrow>
          mset (somes (f_ranks F premium ! t))
            = mset (map real [1..<Suc (length (somes (row (form F premium) t)))])
          \<and> (somes (row (form F premium) t) \<noteq> [] \<longrightarrow>
               f_max F premium ! t = Some (real (length (somes (row (form F premium) t))))))
    \<and> length (somes (row (form F premium) t))
        = card {j. j < length (cols premium) \<and> row (form F premium) t ! j \<noteq> None}"
proof -
  let ?r = "row (form F premium) t"
  have R: "f_ranks F premium ! t = rank_desc ?r" using assms(1) by (rule f_ranks_nth)
  have M: "f_max F premium ! t = max_skipna (rank_desc ?r)" using assms(1) by (rule f_max_nth)
  have len: "length ?r = length (cols premium)" by (simp add: length_row cols_form)
  have p1: "length (rank_desc ?r) = length (cols premium)" by (simp add: length_rank_desc len)
  have p2: "\<forall>i<length (cols premium). (rank_desc ?r ! i = None) = (?r ! i = None)"
    by (simp add: rank_desc_nth len)
  have p3: "\<forall>i<length (cols premium). \<forall>v. ?r ! i = Some v \<longrightarrow>
          rank_desc ?r ! i =
            Some (real (card {j. j < length (cols premium) \<and> (\<exists>w. ?r ! j = Some w \<and> v < w)})
                  + (real (card {j. j < length (cols premium) \<and> ?r ! j = Some v}) + 1) / 2)"
  proof (intro allI impI)
    fix i v assume "i < length (cols premium)" and "?r ! i = Some v"
    then show "rank_desc ?r ! i =
            Some (real (card {j. j < length (cols premium) \<and> (\<exists>w. ?r ! j = Some w \<and> v < w)})
                  + (real (card {j. j < length (cols premium) \<and> ?r ! j = Some v}) + 1) / 2)"
      using rank_desc_tie_rule [of i ?r v] by (simp only: len)
  qed
  have p4: "\<forall>i<length (cols premium). \<forall>j<length (cols premium). \<forall>v w.
          ?r ! i = Some v \<and> ?r ! j = Some w \<and> w < v
          \<longrightarrow> (\<exists>a b. rank_desc ?r ! i = Some a \<and> rank_desc ?r ! j = Some b \<and> a < b)"
  proof (intro allI impI)
    fix i j v w
    assume i: "i < length (cols premium)" and j: "j < length (cols premium)"
      and h: "?r ! i = Some v \<and> ?r ! j = Some w \<and> w < v"
    have "Some v \<in> set ?r" "Some w \<in> set ?r"
      using i j h len by (metis nth_mem)+
    then have "v \<in> set (somes ?r)" "w \<in> set (somes ?r)" by (simp_all add: set_somes)
    then have "rank_of (somes ?r) v < rank_of (somes ?r) w"
      using h by (intro rank_of_antitone) simp_all
    then show "\<exists>a b. rank_desc ?r ! i = Some a \<and> rank_desc ?r ! j = Some b \<and> a < b"
      using i j h len by (simp add: rank_desc_nth)
  qed
  have p5: "distinct (somes ?r) \<longrightarrow>
          mset (somes (rank_desc ?r)) = mset (map real [1..<Suc (length (somes ?r))])
          \<and> (somes ?r \<noteq> [] \<longrightarrow> max_skipna (rank_desc ?r) = Some (real (length (somes ?r))))"
    using ranks_perm [of ?r] max_skipna_rank_distinct [of ?r] by blast
  have p6: "length (somes ?r) = card {j. j < length (cols premium) \<and> ?r ! j \<noteq> None}"
    using length_somes_card [of ?r] by (simp only: len)
  show ?thesis
    unfolding R M using p1 p2 p3 p4 p5 p6 by blast
qed

theorem f_ranks_permutation_witness:
  "5 < ndates ex_six \<and> distinct (somes (row (form 5 ex_six) 5))
   \<and> somes (row (form 5 ex_six) 5) \<noteq> []
   \<and> row (form 5 ex_six) 5 = [Some 1023, Some 31, Some 16806, Some 242, Some 7775, Some 3124]
   \<and> f_ranks 5 ex_six ! 5 = [Some 4, Some 6, Some 1, Some 5, Some 2, Some 3]
   \<and> mset (somes (f_ranks 5 ex_six ! 5))
        = mset (map real [1..<Suc (length (somes (row (form 5 ex_six) 5)))])
   \<and> f_max 5 ex_six ! 5 = Some (real (length (somes (row (form 5 ex_six) 5))))"
proof -
  have h1: "5 < ndates ex_six" by (simp add: ex_six_def)
  have h2: "distinct (somes (row (form 5 ex_six) 5))" by code_simp
  have h3: "somes (row (form 5 ex_six) 5) \<noteq> []" by code_simp
  have e1: "row (form 5 ex_six) 5 = [Some 1023, Some 31, Some 16806, Some 242, Some 7775, Some 3124]"
    by code_simp
  have e2: "f_ranks 5 ex_six ! 5 = [Some 4, Some 6, Some 1, Some 5, Some 2, Some 3]"
    by code_simp
  note c = f_ranks_permutation [OF h1, where F = 5]
  note d = c [THEN conjunct2, THEN conjunct2, THEN conjunct2, THEN conjunct2, THEN conjunct1,
              THEN mp, OF h2]
  note p = d [THEN conjunct1]
  note m = d [THEN conjunct2, THEN mp, OF h3]
  show ?thesis
    by (rule conjI [OF h1 conjI [OF h2 conjI [OF h3 conjI [OF e1 conjI [OF e2 conjI [OF p m]]]]]])
qed

section \<open>The maximum rank\<close>

text \<open>
  Claim C7, as stated, asks the maximum rank of a date to be the number of tickers with
  a formation return. With the three tied tickers of the example the maximum rank of
  date 5 is 2, and three tickers have a formation return.
\<close>

theorem tied_max_rank_counterexample:
  "f_max 5 (stock_premium ex_prices ex_rf0) ! 5 = Some 2
   \<and> length (somes (row (form 5 (stock_premium ex_prices ex_rf0)) 5)) = 3"
  by code_simp

text \<open>
  Claim C7, amended. On a date with \<open>N > 0\<close> non-missing formation returns, of which
  \<open>m\<close> equal the smallest one, the maximum rank is \<open>N - (m - 1) / 2\<close>: it is the count
  \<open>N\<close> exactly when the smallest formation return is not tied. On a date without any
  formation return the maximum rank is missing.
\<close>

theorem f_max_value:
  assumes "t < ndates premium"
  shows "f_max F premium ! t =
     (if somes (row (form F premium) t) = [] then None
      else Some (real (length (somes (row (form F premium) t)))
             - (real (length (filter (\<lambda>w. w = Min (set (somes (row (form F premium) t))))
                                      (somes (row (form F premium) t)))) - 1) / 2))"
  using assms by (simp add: f_max_nth max_skipna_rank max_skipna_rank_none)

theorem f_max_value_witness:
  "5 < ndates (stock_premium ex_prices ex_rf0)
   \<and> f_max 5 (stock_premium ex_prices ex_rf0) ! 5 =
     (if somes (row (form 5 (stock_premium ex_prices ex_rf0)) 5) = [] then None
      else Some (real (length (somes (row (form 5 (stock_premium ex_prices ex_rf0)) 5)))
             - (real (length (filter (\<lambda>w. w = Min (set (somes (row (form 5 (stock_premium ex_prices ex_rf0)) 5))))
                                      (somes (row (form 5 (stock_premium ex_prices ex_rf0)) 5)))) - 1) / 2))"
proof -
  have h: "5 < ndates (stock_premium ex_prices ex_rf0)"
    by (simp add: stock_premium_def stock_rets_def fmap_def ex_prices_def)
  show ?thesis
    by (rule conjI [OF h f_max_value [OF h]])
qed

section \<open>The daily return\<close>

lemma sum_somes_where:
  assumes "length h = length m"
  shows "sum_list (somes (map (omul w) (where_mask h m)))
       = w * sum_list (map2 (\<lambda>c b. if b then (case c of Some v \<Rightarrow> v | None \<Rightarrow> 0) else 0) h m)"
  using assms
  by (induction h m rule: list_induct2)
     (auto simp: where_mask_def omul_def somes_simps algebra_simps split: option.splits)

lemma sum_list_map2_nth:
  assumes "length h = length m"
  shows "sum_list (map2 f h m) = (\<Sum>i<length h. f (h ! i) (m ! i))"
proof -
  have "sum_list (map2 f h m) = (\<Sum>i = 0..<length (map2 f h m). map2 f h m ! i)"
    by (rule sum_list_sum_nth)
  also have "\<dots> = (\<Sum>i = 0..<length h. f (h ! i) (m ! i))"
    using assms by (intro sum.cong) auto
  finally show ?thesis by (simp add: atLeast0LessThan)
qed

lemma weighted_sum_where:
  assumes "length h = length m"
  shows "weighted_sum w (where_mask h m)
       = Some (w * (\<Sum>i | i < length h \<and> m ! i \<and> h ! i \<noteq> None. the (h ! i)))"
proof -
  let ?val = "\<lambda>c b. if b then (case c of Some v \<Rightarrow> v | None \<Rightarrow> (0::real)) else 0"
  have "(\<Sum>i<length h. ?val (h ! i) (m ! i))
      = (\<Sum>i | i < length h \<and> m ! i \<and> h ! i \<noteq> None. the (h ! i))"
    by (rule sum.mono_neutral_cong_right) (auto split: option.splits)
  then show ?thesis
    using assms by (simp add: weighted_sum_def sum_somes_where sum_list_map2_nth)
qed

lemma daily_sum:
  assumes "length ranks = length h"
  shows "daily ranks mx h =
     Some ((1 / 5) * (\<Sum>i | i < length h \<and> long_mask ranks ! i \<and> h ! i \<noteq> None. the (h ! i))
         - (1 / 5) * (\<Sum>i | i < length h \<and> short_mask ranks mx ! i \<and> h ! i \<noteq> None. the (h ! i)))"
  using assms
  by (simp add: daily_def weighted_sum_where length_long_mask length_short_mask oadd_def)

lemma long_mask_nth:
  "i < length r \<Longrightarrow> long_mask r ! i = (\<exists>x. r ! i = Some x \<and> x \<le> 5)"
  by (simp add: long_mask_def le_mask_def split: option.splits)

lemma short_mask_None:
  "i < length r \<Longrightarrow> r ! i = None \<Longrightarrow> short_mask r m ! i = False"
  by (simp add: short_mask_def ge_bool_mask_def eq_mask_def)

lemma half_sum_ge1:
  fixes a b :: real
  assumes "1 \<le> b" and "0 \<le> a"
  shows "1 \<le> a + (b + 1) / 2"
  using assms by (simp add: field_simps)

lemma rank_of_ge1:
  assumes "v \<in> set vs"
  shows "1 \<le> rank_of vs v"
proof -
  have "v \<in> set (filter (\<lambda>w. w = v) vs)" using assms by simp
  then have "0 < length (filter (\<lambda>w. w = v) vs)" by (rule length_pos_if_in_set)
  then have "Suc 0 \<le> length (filter (\<lambda>w. w = v) vs)" by (rule Suc_leI)
  then have "real (Suc 0) \<le> real (length (filter (\<lambda>w. w = v) vs))"
    by (simp only: of_nat_le_iff)
  then have e: "1 \<le> real (length (filter (\<lambda>w. w = v) vs))"
    by (simp only: of_nat_Suc of_nat_0 add_0)
  have g: "0 \<le> real (length (filter (\<lambda>w. v < w) vs))" by simp
  show ?thesis
    unfolding rank_of_closed [OF assms] by (rule half_sum_ge1 [OF e g])
qed

text \<open>
  Whatever the maximum rank is, the short mask of the source holds for every ticker
  that has a rank: a rank is at least 1, and it is compared with a boolean.
\<close>

lemma short_mask_rank_desc:
  assumes "i < length r"
  shows "short_mask (rank_desc r) m ! i = (r ! i \<noteq> None)"
proof (cases "r ! i")
  case None
  then show ?thesis
    using assms by (simp add: short_mask_None length_rank_desc rank_desc_nth)
next
  case (Some v)
  then have "Some v \<in> set r" using assms by (metis nth_mem)
  then have "v \<in> set (somes r)" by (simp add: set_somes)
  then have "1 \<le> rank_of (somes r) v" by (rule rank_of_ge1)
  then show ?thesis
    using assms Some
    by (simp add: short_mask_def ge_bool_mask_def eq_mask_def length_rank_desc rank_desc_nth)
qed

text \<open>
  Claim C2 says that the short bucket of a date is the set of ranked tickers whose rank
  is at least the maximum rank minus five (at most six tickers). The source writes
  \<open>f5_ranks >= f5_ranks.eq(f5_max - 5, axis = 0)\<close>: it compares the ranks with the
  booleans that \<open>eq\<close> returns, not with the maximum rank minus five. With eight tickers
  of distinct formation returns (ranks 1 to 8) the source selects all eight, where the
  claim selects the six of rank 3 to 8.
\<close>

theorem short_mask_selects_every_ranked:
  "short_mask (rank_desc [Some 8, Some 7, Some 6, Some 5, Some 4, Some 3, Some 2, Some 1])
     (max_skipna (rank_desc [Some 8, Some 7, Some 6, Some 5, Some 4, Some 3, Some 2, Some 1]))
     = [True, True, True, True, True, True, True, True]
   \<and> claimed_short_mask (rank_desc [Some 8, Some 7, Some 6, Some 5, Some 4, Some 3, Some 2, Some 1])
     (max_skipna (rank_desc [Some 8, Some 7, Some 6, Some 5, Some 4, Some 3, Some 2, Some 1]))
     = [False, False, True, True, True, True, True, True]"
  by code_simp


lemma daily_rank_desc:
  assumes "length r = length h"
  shows "daily (rank_desc r) m h =
     Some ((1 / 5) * (\<Sum>i | i < length h \<and> (\<exists>x. rank_desc r ! i = Some x \<and> x \<le> 5)
                            \<and> h ! i \<noteq> None. the (h ! i))
         - (1 / 5) * (\<Sum>i | i < length h \<and> r ! i \<noteq> None \<and> h ! i \<noteq> None. the (h ! i)))"
proof -
  have len: "length (rank_desc r) = length h" using assms by (simp add: length_rank_desc)
  have e1: "{i. i < length h \<and> long_mask (rank_desc r) ! i \<and> h ! i \<noteq> None}
          = {i. i < length h \<and> (\<exists>x. rank_desc r ! i = Some x \<and> x \<le> 5) \<and> h ! i \<noteq> None}"
    using len by (auto simp: long_mask_nth)
  have e2: "{i. i < length h \<and> short_mask (rank_desc r) m ! i \<and> h ! i \<noteq> None}
          = {i. i < length h \<and> r ! i \<noteq> None \<and> h ! i \<noteq> None}"
    using assms by (auto simp: short_mask_rank_desc)
  show ?thesis
    by (simp only: daily_sum [OF len] e1 e2)
qed

lemma fhpr_explicit:
  assumes "t < ndates premium"
  shows "fhpr F H premium ! t = Some (
      (1 / 5) * (\<Sum>i | i < length (cols premium)
                     \<and> (\<exists>x. f_ranks F premium ! t ! i = Some x \<and> x \<le> 5)
                     \<and> row (hpr H premium) t ! i \<noteq> None. the (row (hpr H premium) t ! i))
    - (1 / 5) * (\<Sum>i | i < length (cols premium)
                     \<and> row (form F premium) t ! i \<noteq> None
                     \<and> row (hpr H premium) t ! i \<noteq> None. the (row (hpr H premium) t ! i)))"
proof -
  let ?r = "row (form F premium) t" and ?h = "row (hpr H premium) t"
  have R: "f_ranks F premium ! t = rank_desc ?r" using assms by (rule f_ranks_nth)
  have len: "length ?r = length ?h" "length ?h = length (cols premium)"
    by (simp_all add: length_row cols_form cols_hpr)
  have "fhpr F H premium ! t = daily (rank_desc ?r) (f_max F premium ! t) ?h"
    using assms by (simp only: fhpr_nth R)
  also have "\<dots> = Some (
      (1 / 5) * (\<Sum>i | i < length ?h \<and> (\<exists>x. rank_desc ?r ! i = Some x \<and> x \<le> 5)
                     \<and> ?h ! i \<noteq> None. the (?h ! i))
    - (1 / 5) * (\<Sum>i | i < length ?h \<and> ?r ! i \<noteq> None \<and> ?h ! i \<noteq> None. the (?h ! i)))"
    by (rule daily_rank_desc [OF len(1)])
  finally show ?thesis
    by (simp only: len(2) R)
qed



lemma row_form_early:
  assumes "Suc t < F" "i < length (cols p)"
  shows "row (form F p) t ! i = None"
  using assms by (simp add: row_def cols_form cell_at_def rolling_apply_def)

lemma row_hpr_late:
  assumes "wf_frame p" "ndates p \<le> t + H" "i < length (cols p)"
  shows "row (hpr H p) t ! i = None"
proof -
  have "length (cols p ! i) = ndates p"
    using assms by (simp add: wf_frame_def list_all_length)
  then show ?thesis
    using assms by (simp add: row_def cols_hpr cell_at_def shift_back_def length_rolling_apply)
qed

text \<open>
  Claim C10. Each of the nine daily return series has one cell per date of the index
  and no cell of it is missing: the daily return of a date is 0.2 times the sum of the
  holding returns that are present among the tickers of rank at most 5, minus 0.2 times
  the sum of the holding returns that are present among the tickers the short side
  selects (every ranked ticker), so missing holding returns are skipped. On a date
  where every selected holding return is missing the daily return is 0, and this is so
  on the first \<open>F - 1\<close> dates (no ticker is ranked) and on the last \<open>H\<close> dates (no holding
  return exists).
\<close>

theorem fhpr_always_defined:
  assumes "(F, H) \<in> set strategies" and "wf_frame premium" and "t < ndates premium"
  shows "length (fhpr F H premium) = ndates premium
    \<and> fhpr F H premium ! t = Some (
        (1 / 5) * (\<Sum>i | i < length (cols premium)
                       \<and> (\<exists>x. f_ranks F premium ! t ! i = Some x \<and> x \<le> 5)
                       \<and> row (hpr H premium) t ! i \<noteq> None. the (row (hpr H premium) t ! i))
      - (1 / 5) * (\<Sum>i | i < length (cols premium)
                       \<and> row (form F premium) t ! i \<noteq> None
                       \<and> row (hpr H premium) t ! i \<noteq> None. the (row (hpr H premium) t ! i)))
    \<and> ((\<forall>i<length (cols premium).
          row (form F premium) t ! i \<noteq> None \<longrightarrow> row (hpr H premium) t ! i = None)
        \<longrightarrow> fhpr F H premium ! t = Some 0)
    \<and> (Suc t < F \<or> ndates premium \<le> t + H \<longrightarrow> fhpr F H premium ! t = Some 0)"
proof -
  let ?r = "row (form F premium) t" and ?h = "row (hpr H premium) t"
  have R: "f_ranks F premium ! t = rank_desc ?r" using assms(3) by (rule f_ranks_nth)
  have len: "length ?r = length (cols premium)" by (simp add: length_row cols_form)
  note main = fhpr_explicit [OF assms(3), of F H]
  have zero: "fhpr F H premium ! t = Some 0"
    if sel: "\<forall>i<length (cols premium). ?r ! i \<noteq> None \<longrightarrow> ?h ! i = None"
  proof -
    have ranked: "?r ! i \<noteq> None" if "i < length (cols premium)"
      and "\<exists>x. f_ranks F premium ! t ! i = Some x \<and> x \<le> 5" for i
      using that len by (auto simp: R rank_desc_nth)
    have n1: "\<not> (i < length (cols premium)
                \<and> (\<exists>x. f_ranks F premium ! t ! i = Some x \<and> x \<le> 5) \<and> ?h ! i \<noteq> None)" for i
    proof
      assume a: "i < length (cols premium)
                \<and> (\<exists>x. f_ranks F premium ! t ! i = Some x \<and> x \<le> 5) \<and> ?h ! i \<noteq> None"
      from a have i: "i < length (cols premium)" by (rule conjunct1)
      from a have rk: "\<exists>x. f_ranks F premium ! t ! i = Some x \<and> x \<le> 5"
        by (rule conjunct2 [THEN conjunct1])
      from a have hh: "?h ! i \<noteq> None" by (rule conjunct2 [THEN conjunct2])
      have "?r ! i \<noteq> None" using i rk by (rule ranked)
      with i have "?h ! i = None" by (rule sel [rule_format])
      with hh show False by (rule notE)
    qed
    have n2: "\<not> (i < length (cols premium) \<and> ?r ! i \<noteq> None \<and> ?h ! i \<noteq> None)" for i
    proof
      assume a: "i < length (cols premium) \<and> ?r ! i \<noteq> None \<and> ?h ! i \<noteq> None"
      from a have i: "i < length (cols premium)" by (rule conjunct1)
      from a have rr: "?r ! i \<noteq> None" by (rule conjunct2 [THEN conjunct1])
      from a have hh: "?h ! i \<noteq> None" by (rule conjunct2 [THEN conjunct2])
      from i rr have "?h ! i = None" by (rule sel [rule_format])
      with hh show False by (rule notE)
    qed
    have e1: "{i. i < length (cols premium) \<and> (\<exists>x. f_ranks F premium ! t ! i = Some x \<and> x \<le> 5)
                  \<and> ?h ! i \<noteq> None} = {}"
      by (rule Collect_empty_eq [THEN iffD2]) (rule allI, rule n1)
    have e2: "{i. i < length (cols premium) \<and> ?r ! i \<noteq> None \<and> ?h ! i \<noteq> None} = {}"
      by (rule Collect_empty_eq [THEN iffD2]) (rule allI, rule n2)
    show ?thesis
      using main by (simp only: e1 e2 sum.empty) simp
  qed
  have early: "fhpr F H premium ! t = Some 0" if "Suc t < F"
    by (rule zero) (simp add: row_form_early [OF that])
  have late: "fhpr F H premium ! t = Some 0" if "ndates premium \<le> t + H"
    by (rule zero) (simp add: row_hpr_late [OF assms(2) that])
  have l: "length (fhpr F H premium) = ndates premium" by (rule length_fhpr)
  have z: "(\<forall>i<length (cols premium). ?r ! i \<noteq> None \<longrightarrow> ?h ! i = None)
           \<longrightarrow> fhpr F H premium ! t = Some 0"
    by (rule impI) (rule zero)
  have el: "Suc t < F \<or> ndates premium \<le> t + H \<longrightarrow> fhpr F H premium ! t = Some 0"
    by (rule impI, erule disjE, erule early, erule late)
  show ?thesis
    by (rule conjI [OF l conjI [OF main conjI [OF z el]]])
qed

theorem fhpr_always_defined_witness:
  "(5, 5) \<in> set strategies \<and> wf_frame ex_six \<and> 5 < ndates ex_six \<and> Suc 1 < (5::nat)
   \<and> length (fhpr 5 5 ex_six) = ndates ex_six
   \<and> fhpr 5 5 ex_six ! 1 = Some 0
   \<and> f_ranks 5 ex_six ! 5 ! 3 = Some 5 \<and> row (hpr 5 ex_six) 5 ! 3 = None
   \<and> fhpr 5 5 ex_six = [Some 0, Some 0, Some 0, Some 0, Some 0, Some (- (31 / 5)),
                           Some 0, Some 0, Some 0, Some 0, Some 0]
   \<and> (1 / 5) * (\<Sum>i | i < length (cols ex_six)
                       \<and> (\<exists>x. f_ranks 5 ex_six ! 5 ! i = Some x \<and> x \<le> 5)
                       \<and> row (hpr 5 ex_six) 5 ! i \<noteq> None. the (row (hpr 5 ex_six) 5 ! i))
      - (1 / 5) * (\<Sum>i | i < length (cols ex_six)
                       \<and> row (form 5 ex_six) 5 ! i \<noteq> None
                       \<and> row (hpr 5 ex_six) 5 ! i \<noteq> None. the (row (hpr 5 ex_six) 5 ! i))
      = - (31 / 5)"
proof -
  have h1: "(5, 5) \<in> set strategies" by (simp add: strategies_def)
  have h2: "wf_frame ex_six" by (simp add: ex_six_def wf_frame_def)
  have h3: "1 < ndates ex_six" by (simp add: ex_six_def)
  have h3': "5 < ndates ex_six" by (simp add: ex_six_def)
  have h4: "Suc 1 < (5::nat)" by simp
  have e1: "f_ranks 5 ex_six ! 5 ! 3 = Some 5" by code_simp
  have e2: "row (hpr 5 ex_six) 5 ! 3 = None" by code_simp
  have e3: "fhpr 5 5 ex_six = [Some 0, Some 0, Some 0, Some 0, Some 0, Some (- (31 / 5)),
                           Some 0, Some 0, Some 0, Some 0, Some 0]"
    by code_simp
  have e4: "fhpr 5 5 ex_six ! 5 = Some (- (31 / 5))" by code_simp
  note c = fhpr_always_defined [OF h1 h2 h3]
  note a = c [THEN conjunct1]
  note z = c [THEN conjunct2, THEN conjunct2, THEN conjunct2, THEN mp, OF disjI1, OF h4]
  note c5 = fhpr_always_defined [OF h1 h2 h3']
  note v = trans [OF c5 [THEN conjunct2, THEN conjunct1, symmetric] e4]
  note w = v [unfolded option.inject]
  show ?thesis
    by (rule conjI [OF h1 conjI [OF h2 conjI [OF h3' conjI [OF h4 conjI [OF a conjI [OF z
          conjI [OF e1 conjI [OF e2 conjI [OF e3 w]]]]]]]]])
qed

section \<open>Cumulative returns\<close>

lemma daily_some: "\<exists>v. daily r m h = Some v"
  by (simp add: daily_def weighted_sum_def oadd_def)

lemma fhpr_map_Some: "fhpr F H p = map Some (map the (fhpr F H p))"
proof (rule nth_equalityI)
  show "length (fhpr F H p) = length (map Some (map the (fhpr F H p)))" by simp
next
  fix t assume "t < length (fhpr F H p)"
  then have t: "t < ndates p" by (simp add: length_fhpr)
  obtain v where "fhpr F H p ! t = Some v"
    using daily_some fhpr_nth [OF t] by metis
  then show "fhpr F H p ! t = map Some (map the (fhpr F H p)) ! t"
    using t by (simp add: length_fhpr)
qed

lemma length_cumprod_from: "length (cumprod_from acc s) = length s"
  by (induction acc s rule: cumprod_from.induct) auto

lemma cumprod_from_nth:
  "t < length vs \<Longrightarrow> cumprod_from acc (map Some vs) ! t = Some (acc * prod_list (take (Suc t) vs))"
proof (induction vs arbitrary: acc t)
  case Nil
  then show ?case by simp
next
  case (Cons v vs)
  show ?case
  proof (cases t)
    case 0
    then show ?thesis by simp
  next
    case (Suc t')
    with Cons.prems have "t' < length vs" by simp
    from Cons.IH [OF this, of "acc * v"] Suc show ?thesis by (simp add: mult.assoc)
  qed
qed

lemma prod_list_take_Suc:
  "t < length xs \<Longrightarrow> prod_list (take (Suc t) xs) = (\<Prod>u\<le>t. xs ! u)"
proof (induction t)
  case 0
  then show ?case by (simp add: take_Suc_conv_app_nth)
next
  case (Suc t)
  then have "prod_list (take (Suc t) xs) = (\<Prod>u\<le>t. xs ! u)" by simp
  moreover have "take (Suc (Suc t)) xs = take (Suc t) xs @ [xs ! Suc t]"
    using Suc.prems by (rule take_Suc_conv_app_nth)
  ultimately show ?case by simp
qed

lemma cumrets_nth:
  assumes "t < length ds"
  shows "cumrets (map Some ds) ! t = Some ((\<Prod>u\<le>t. 1 + ds ! u) - 1)"
proof -
  have m: "map (oadd (Some 1)) (map Some ds) = map Some (map (\<lambda>d. 1 + d) ds)"
    by (simp add: oadd_def)
  have "cumprod (map Some (map (\<lambda>d. 1 + d) ds)) ! t
      = Some (prod_list (take (Suc t) (map (\<lambda>d. 1 + d) ds)))"
    using assms cumprod_from_nth [of t "map (\<lambda>d. 1 + d) ds" 1]
    by (simp add: cumprod_def del: map_map)
  also have "prod_list (take (Suc t) (map (\<lambda>d. 1 + d) ds)) = (\<Prod>u\<le>t. map (\<lambda>d. 1 + d) ds ! u)"
    using assms by (intro prod_list_take_Suc) simp
  also have "\<dots> = (\<Prod>u\<le>t. 1 + ds ! u)"
    using assms by (intro prod.cong) auto
  finally have c: "cumprod (map Some (map (\<lambda>d. 1 + d) ds)) ! t = Some (\<Prod>u\<le>t. 1 + ds ! u)" .
  have "t < length (cumprod (map Some (map (\<lambda>d. 1 + d) ds)))"
    using assms by (simp add: cumprod_def length_cumprod_from)
  then show ?thesis
    by (simp add: cumrets_def m c osub_def del: map_map)
qed

lemma length_cumrets: "length (cumrets s) = length s"
  by (simp add: cumrets_def cumprod_def length_cumprod_from)

text \<open>
  Claim C6. For each of the nine portfolio series and every date \<open>t\<close>, the cumulative
  return is the product over the dates \<open>s \<le> t\<close> of \<open>1 + daily(s)\<close>, minus 1, and after
  the first date it satisfies
  \<open>cumulative(t) = (1 + cumulative(t - 1)) * (1 + daily(t)) - 1\<close>.
\<close>

theorem cumrets_compounds:
  assumes "(F, H) \<in> set strategies" and "t < ndates premium"
  shows "length (cumrets (fhpr F H premium)) = ndates premium
    \<and> cumrets (fhpr F H premium) ! t
        = Some ((\<Prod>u\<le>t. 1 + the (fhpr F H premium ! u)) - 1)
    \<and> (0 < t \<longrightarrow> cumrets (fhpr F H premium) ! t
        = Some ((1 + the (cumrets (fhpr F H premium) ! (t - 1)))
                 * (1 + the (fhpr F H premium ! t)) - 1))"
proof -
  let ?s = "fhpr F H premium"
  let ?ds = "map the ?s"
  have s: "?s = map Some ?ds" by (rule fhpr_map_Some)
  have len: "length ?ds = ndates premium" by (simp add: length_fhpr)
  have form: "cumrets ?s ! u = Some ((\<Prod>k\<le>u. 1 + the (?s ! k)) - 1)" if "u < ndates premium" for u
  proof -
    have "cumrets (map Some ?ds) ! u = Some ((\<Prod>k\<le>u. 1 + ?ds ! k) - 1)"
      using that len by (intro cumrets_nth) simp
    moreover have "(\<Prod>k\<le>u. 1 + ?ds ! k) = (\<Prod>k\<le>u. 1 + the (?s ! k))"
      using that by (intro prod.cong) (auto simp: length_fhpr)
    ultimately show ?thesis using s by simp
  qed
  have rec: "cumrets ?s ! t = Some ((1 + the (cumrets ?s ! (t - 1))) * (1 + the (?s ! t)) - 1)"
    if pos: "0 < t"
  proof -
    obtain t' where t': "t = Suc t'" using pos by (cases t) auto
    have "t' < ndates premium" using assms(2) t' by simp
    from form [OF this] have "1 + the (cumrets ?s ! t') = (\<Prod>k\<le>t'. 1 + the (?s ! k))" by simp
    then show ?thesis using form [OF assms(2)] t' by simp
  qed
  show ?thesis
    using form [OF assms(2)] rec by (simp add: length_cumrets length_fhpr)
qed

theorem cumrets_compounds_witness:
  "(5, 5) \<in> set strategies \<and> 1 < ndates ex_premium
    \<and> length (cumrets (fhpr 5 5 ex_premium)) = ndates ex_premium
    \<and> cumrets (fhpr 5 5 ex_premium) ! 1
        = Some ((\<Prod>u\<le>1. 1 + the (fhpr 5 5 ex_premium ! u)) - 1)
    \<and> cumrets (fhpr 5 5 ex_premium) ! 1
        = Some ((1 + the (cumrets (fhpr 5 5 ex_premium) ! (1 - 1)))
                 * (1 + the (fhpr 5 5 ex_premium ! 1)) - 1)"
proof -
  have h1: "(5, 5) \<in> set strategies" by (simp add: strategies_def)
  have h2: "1 < ndates ex_premium" by (simp add: ex_premium_def)
  have h3: "0 < (1::nat)" by simp
  note c = cumrets_compounds [OF h1 h2]
  note a = c [THEN conjunct1]
  note b = c [THEN conjunct2, THEN conjunct1]
  note d = c [THEN conjunct2, THEN conjunct2, THEN mp, OF h3]
  show ?thesis
    by (rule conjI [OF h1 conjI [OF h2 conjI [OF a conjI [OF b d]]]])
qed

section \<open>The performance table\<close>

lemma those_map_Some: "those (map Some xs) = Some xs"
  by (induction xs) auto

lemma length_strategies: "length strategies = 9"
  by (simp add: strategies_def)

lemma length_portfolios: "length (portfolios p) = 9"
  by (simp add: portfolios_def length_strategies)

lemma portfolios_nth:
  "k < 9 \<Longrightarrow> portfolios p ! k = fhpr (fst (strategies ! k)) (snd (strategies ! k)) p"
  by (simp add: portfolios_def length_strategies split_beta)

lemma np_average_map_Some:
  "np_average (map Some ds) = (if ds = [] then None else Some (sum_list ds / real (length ds)))"
  by (simp add: np_average_def those_map_Some)

lemma somes_sum_set:
  "sum_list (somes xs) = (\<Sum>t | t < length xs \<and> xs ! t \<noteq> None. the (xs ! t))"
proof -
  let ?val = "\<lambda>c. case c of Some v \<Rightarrow> v | None \<Rightarrow> (0::real)"
  have "sum_list (somes xs) = sum_list (map ?val xs)"
    by (induction xs) (auto simp: somes_def)
  also have "\<dots> = (\<Sum>t = 0..<length (map ?val xs). map ?val xs ! t)"
    by (rule sum_list_sum_nth)
  also have "\<dots> = (\<Sum>t = 0..<length xs. ?val (xs ! t))"
    by (intro sum.cong) auto
  also have "\<dots> = (\<Sum>t | t < length xs \<and> xs ! t \<noteq> None. the (xs ! t))"
    by (rule sum.mono_neutral_cong_right) (auto split: option.splits)
  finally show ?thesis .
qed

lemma somes_empty_iff: "(somes s = []) = ({t. t < length s \<and> s ! t \<noteq> None} = {})"
proof -
  have "(somes s = []) = (length (somes s) = 0)" by simp
  also have "\<dots> = (card {t. t < length s \<and> s ! t \<noteq> None} = 0)"
    by (simp only: length_somes_card)
  also have "\<dots> = ({t. t < length s \<and> s ! t \<noteq> None} = {})"
    by (rule card_0_eq) simp
  finally show ?thesis .
qed

lemma mean_skipna_somes:
  "mean_skipna s =
     (if somes s = [] then None else Some (sum_list (somes s) / real (length (somes s))))"
  by (cases "somes s") (simp_all add: mean_skipna_def)

lemma mean_skipna_explicit:
  "mean_skipna s =
     (if {t. t < length s \<and> s ! t \<noteq> None} = {} then None
      else Some ((\<Sum>t | t < length s \<and> s ! t \<noteq> None. the (s ! t))
                 / real (card {t. t < length s \<and> s ! t \<noteq> None})))"
  by (simp only: mean_skipna_somes somes_sum_set length_somes_card somes_empty_iff)

lemma port_perform_nth:
  assumes "k < 9"
  shows "port_avg_rets (port_perform p mkt ! k) = np_average (portfolios p ! k)"
    and "snp_avg_rets (port_perform p mkt ! k) = mean_skipna mkt"
    and "port_diff (port_perform p mkt ! k)
         = osub (np_average (portfolios p ! k)) (mean_skipna mkt)"
  using assms by (simp_all add: port_perform_def Let_def length_portfolios)

lemma length_port_perform: "length (port_perform p mkt) = 9"
  by (simp add: port_perform_def Let_def length_portfolios)

text \<open>
  Claim C9. The performance table has nine rows. In the row of a strategy,
  \<open>port avg rets\<close> is the sum of the strategy's daily returns divided by the number of
  dates, \<open>snp avg rets\<close> is the sum of the non-missing market premiums divided by their
  number, the same in all rows, and \<open>port diff\<close> is the first minus the second (an entry
  is missing when there is no date, or no non-missing market premium, to average).
\<close>

theorem port_diff_is_difference:
  assumes "k < 9"
  shows "length (port_perform premium mkt) = 9
     \<and> (\<exists>ds. fhpr (fst (strategies ! k)) (snd (strategies ! k)) premium = map Some ds
          \<and> length ds = ndates premium
          \<and> port_avg_rets (port_perform premium mkt ! k)
              = (if ds = [] then None else Some (sum_list ds / real (length ds)))
          \<and> snp_avg_rets (port_perform premium mkt ! k)
              = (if {t. t < length mkt \<and> mkt ! t \<noteq> None} = {} then None
                 else Some ((\<Sum>t | t < length mkt \<and> mkt ! t \<noteq> None. the (mkt ! t))
                            / real (card {t. t < length mkt \<and> mkt ! t \<noteq> None})))
          \<and> port_diff (port_perform premium mkt ! k)
              = (if ds = [] \<or> {t. t < length mkt \<and> mkt ! t \<noteq> None} = {} then None
                 else Some (sum_list ds / real (length ds)
                            - (\<Sum>t | t < length mkt \<and> mkt ! t \<noteq> None. the (mkt ! t))
                              / real (card {t. t < length mkt \<and> mkt ! t \<noteq> None}))))"
proof -
  let ?s = "fhpr (fst (strategies ! k)) (snd (strategies ! k)) premium"
  let ?ds = "map the ?s"
  let ?M = "{t. t < length mkt \<and> mkt ! t \<noteq> None}"
  have s: "?s = map Some ?ds" by (rule fhpr_map_Some)
  have len: "length ?ds = ndates premium" by (simp add: length_fhpr)
  have avg: "np_average (portfolios premium ! k)
           = (if ?ds = [] then None else Some (sum_list ?ds / real (length ?ds)))"
    using np_average_map_Some [of ?ds] s assms by (simp only: portfolios_nth)
  note snp = mean_skipna_explicit [of mkt]
  have diff: "osub (np_average (portfolios premium ! k)) (mean_skipna mkt)
      = (if ?ds = [] \<or> ?M = {} then None
         else Some (sum_list ?ds / real (length ?ds)
                    - (\<Sum>t | t < length mkt \<and> mkt ! t \<noteq> None. the (mkt ! t)) / real (card ?M)))"
    unfolding avg snp by (simp add: osub_def)
  have "port_avg_rets (port_perform premium mkt ! k)
              = (if ?ds = [] then None else Some (sum_list ?ds / real (length ?ds)))"
    using port_perform_nth(1) [OF assms] avg by simp
  moreover have "snp_avg_rets (port_perform premium mkt ! k)
              = (if ?M = {} then None
                 else Some ((\<Sum>t | t < length mkt \<and> mkt ! t \<noteq> None. the (mkt ! t)) / real (card ?M)))"
    using port_perform_nth(2) [OF assms] snp by simp
  moreover have "port_diff (port_perform premium mkt ! k)
      = (if ?ds = [] \<or> ?M = {} then None
         else Some (sum_list ?ds / real (length ?ds)
                    - (\<Sum>t | t < length mkt \<and> mkt ! t \<noteq> None. the (mkt ! t)) / real (card ?M)))"
    using port_perform_nth(3) [OF assms] diff by simp
  ultimately show ?thesis
    using s len length_port_perform by blast
qed

theorem port_diff_is_difference_witness:
  "(0::nat) < 9 \<and> length (port_perform ex_six ex_mkt) = 9
   \<and> fhpr (fst (strategies ! 0)) (snd (strategies ! 0)) ex_six
       = [Some 0, Some 0, Some 0, Some 0, Some 0, Some (- (31 / 5)),
          Some 0, Some 0, Some 0, Some 0, Some 0]
   \<and> port_avg_rets (port_perform ex_six ex_mkt ! 0) = Some (- (31 / 55))
   \<and> snp_avg_rets (port_perform ex_six ex_mkt ! 0) = Some (1 / 100)
   \<and> port_diff (port_perform ex_six ex_mkt ! 0) = Some (- (631 / 1100))"
proof -
  have h: "(0::nat) < 9" by simp
  have e0: "fhpr (fst (strategies ! 0)) (snd (strategies ! 0)) ex_six
       = [Some 0, Some 0, Some 0, Some 0, Some 0, Some (- (31 / 5)),
          Some 0, Some 0, Some 0, Some 0, Some 0]"
    by code_simp
  have snp: "mean_skipna ex_mkt = Some (1 / 100)" by code_simp
  from port_diff_is_difference [OF h, of ex_six ex_mkt] obtain ds where
    a: "length (port_perform ex_six ex_mkt) = 9"
    and d: "fhpr (fst (strategies ! 0)) (snd (strategies ! 0)) ex_six = map Some ds"
    and p: "port_avg_rets (port_perform ex_six ex_mkt ! 0)
              = (if ds = [] then None else Some (sum_list ds / real (length ds)))"
    and s: "snp_avg_rets (port_perform ex_six ex_mkt ! 0)
              = (if {t. t < length ex_mkt \<and> ex_mkt ! t \<noteq> None} = {} then None
                 else Some ((\<Sum>t | t < length ex_mkt \<and> ex_mkt ! t \<noteq> None. the (ex_mkt ! t))
                            / real (card {t. t < length ex_mkt \<and> ex_mkt ! t \<noteq> None})))"
    and f: "port_diff (port_perform ex_six ex_mkt ! 0)
              = (if ds = [] \<or> {t. t < length ex_mkt \<and> ex_mkt ! t \<noteq> None} = {} then None
                 else Some (sum_list ds / real (length ds)
                            - (\<Sum>t | t < length ex_mkt \<and> ex_mkt ! t \<noteq> None. the (ex_mkt ! t))
                              / real (card {t. t < length ex_mkt \<and> ex_mkt ! t \<noteq> None})))"
    by (elim conjE exE) (rule that)
  have "map Some ds = map Some [0, 0, 0, 0, 0, - (31 / 5), 0, 0, 0, 0, 0]"
    using d e0 by simp
  then have dsv: "ds = [0, 0, 0, 0, 0, - (31 / 5), 0, 0, 0, 0, 0]"
    by (simp only: inj_map_eq_map [OF inj_Some])
  have m: "{t. t < length ex_mkt \<and> ex_mkt ! t \<noteq> None} \<noteq> {}
      \<and> (\<Sum>t | t < length ex_mkt \<and> ex_mkt ! t \<noteq> None. the (ex_mkt ! t))
          / real (card {t. t < length ex_mkt \<and> ex_mkt ! t \<noteq> None}) = 1 / 100"
    using mean_skipna_explicit [of ex_mkt] snp by (simp split: if_splits)
  note m1 = m [THEN conjunct1] and m2 = m [THEN conjunct2]
  have ne: "ds \<noteq> []" unfolding dsv by simp
  have avgv: "sum_list ds / real (length ds) = - (31 / 55)" unfolding dsv by simp
  have arith: "- (31 / 55) - 1 / 100 = - (631 / 1100 :: real)" by simp
  have e1: "port_avg_rets (port_perform ex_six ex_mkt ! 0) = Some (- (31 / 55))"
    using p by (simp only: ne if_False avgv)
  have e2: "snp_avg_rets (port_perform ex_six ex_mkt ! 0) = Some (1 / 100)"
    using s by (simp only: m1 if_False m2)
  have e3: "port_diff (port_perform ex_six ex_mkt ! 0) = Some (- (631 / 1100))"
    using f by (simp only: ne m1 m2 avgv arith simp_thms if_False)
  show ?thesis
    by (rule conjI [OF h conjI [OF a conjI [OF e0 conjI [OF e1 conjI [OF e2 e3]]]]])
qed

end
